theory Spec2Isabelle
  imports Complex_Main "HOL-Library.Char_ord" "HOL-Library.List_Lexorder"
begin

section \<open>Calendar dates\<close>

text \<open>
  A \<^verbatim>\<open>datetime\<close> of Python (and a time stamp of the depth dataset) is
  modelled by its calendar fields. The constructor of Python accepts years 1 to 9999 and
  a day that exists in the month; everything else is a \<^verbatim>\<open>ValueError\<close>.
  Time of day is always midnight in \<^verbatim>\<open>utils.py\<close> and is left out.
\<close>

record date =
  year :: nat
  month :: nat
  day :: nat

definition is_leap :: "nat \<Rightarrow> bool" where
  "is_leap y = (y mod 4 = 0 \<and> (y mod 100 \<noteq> 0 \<or> y mod 400 = 0))"

definition days_in_month :: "nat \<Rightarrow> nat \<Rightarrow> nat" where
  "days_in_month y m =
     (if m = 2 then (if is_leap y then 29 else 28)
      else if m = 4 \<or> m = 6 \<or> m = 9 \<or> m = 11 then 30 else 31)"

definition valid_date :: "nat \<Rightarrow> nat \<Rightarrow> nat \<Rightarrow> bool" where
  "valid_date y m d =
     (1 \<le> y \<and> y \<le> 9999 \<and> 1 \<le> m \<and> m \<le> 12 \<and> 1 \<le> d \<and> d \<le> days_in_month y m)"

text \<open>\<^verbatim>\<open>datetime(y, m, d)\<close>: \<open>None\<close> stands for the \<^verbatim>\<open>ValueError\<close>.\<close>

definition datetime :: "int \<Rightarrow> nat \<Rightarrow> nat \<Rightarrow> date option" where
  "datetime y m d =
     (if 0 \<le> y \<and> valid_date (nat y) m d
      then Some \<lparr>year = nat y, month = m, day = d\<rparr> else None)"

text \<open>The order of \<^verbatim>\<open>datetime\<close> values: year, then month, then day.\<close>

definition date_le :: "date \<Rightarrow> date \<Rightarrow> bool" where
  "date_le a b =
     (year a < year b \<or>
      (year a = year b \<and> (month a < month b \<or> (month a = month b \<and> day a \<le> day b))))"

section \<open>Vegetation transition rules (veg\_logic.py)\<close>

text \<open>
  A float64 cell value of the depth raster. Only comparisons against a threshold are made
  on it; a comparison with NaN is false in either direction.
\<close>

datatype fval = NaN | NegInf | Finite real | PosInf

fun fle :: "fval \<Rightarrow> real \<Rightarrow> bool" where
  "fle NaN r = False"
| "fle NegInf r = True"
| "fle (Finite x) r = (x \<le> r)"
| "fle PosInf r = False"

fun fgt :: "fval \<Rightarrow> real \<Rightarrow> bool" where
  "fgt NaN r = False"
| "fgt NegInf r = False"
| "fgt (Finite x) r = (x > r)"
| "fgt PosInf r = True"

text \<open>
  A grid cell is addressed by its (y, x) index. The vegetation grid and every time step of
  the depth dataset are arrays over the same cells: numpy applies the boolean mask built
  from the dataset to \<^verbatim>\<open>veg_type\<close>, which requires equal shapes.
\<close>

type_synonym cell = "nat \<times> nat"

type_synonym veg_grid = "cell \<Rightarrow> int"

text \<open>One entry of the \<^verbatim>\<open>WSE_MEAN\<close> variable along the time dimension.\<close>

record timestep =
  time :: date
  depth :: "cell \<Rightarrow> fval"

text \<open>
  The dataset is the list of its time steps, in the increasing order of its time index.
\<close>

type_synonym dataset = "timestep list"

text \<open>
  \<^verbatim>\<open>water_depth.sel(time=slice(f"{y}-{lo}", f"{y}-{hi}"))\<close>: partial string
  slicing keeps the steps from the first instant of month \<open>lo\<close> to the last instant of
  month \<open>hi\<close> of year \<open>y\<close>, both included (\<open>y\<close> is a year of four digits, as every
  year of a pandas time stamp is).
\<close>

definition sel_time :: "dataset \<Rightarrow> nat \<Rightarrow> nat \<Rightarrow> nat \<Rightarrow> dataset" where
  "sel_time ds y lo hi =
     filter (\<lambda>s. year (time s) = y \<and> lo \<le> month (time s) \<and> month (time s) \<le> hi) ds"

text \<open>\<^verbatim>\<open>(... <= 0).any(dim="time")\<close> at one cell.\<close>

definition any_time :: "bool list \<Rightarrow> bool" where
  "any_time bs = list_ex (\<lambda>b. b) bs"

text \<open>
  \<^verbatim>\<open>(... > 0).mean(dim="time")\<close> at one cell: the number of true entries divided by
  the number of entries, and NaN over an empty window. The quotient is taken exactly;
  the float64 quotient compares with the float64 constant 0.2 as the exact quotient does
  with 1/5 for every window of fewer than \<open>2^50\<close> steps.
\<close>

definition mean_time :: "bool list \<Rightarrow> fval" where
  "mean_time bs =
     (if bs = [] then NaN
      else Finite (real (length (filter (\<lambda>b. b) bs)) / real (length bs)))"

text \<open>Lines 39 to 41: March to May, depth \<open>\<le> 0\<close> at some step.\<close>

definition condition_1 :: "dataset \<Rightarrow> date \<Rightarrow> cell \<Rightarrow> bool" where
  "condition_1 water_depth dt c =
     (let filtered_1 = sel_time water_depth (year dt) 3 5
      in any_time (map (\<lambda>s. fle (depth s c) 0) filtered_1))"

text \<open>Lines 43 to 49: growing season April to September, share of wet steps above 0.2.\<close>

definition condition_2 :: "dataset \<Rightarrow> date \<Rightarrow> cell \<Rightarrow> bool" where
  "condition_2 water_depth dt c =
     (let filtered_2 = sel_time water_depth (year dt) 4 9;
          condition_2_pct = mean_time (map (\<lambda>s. fgt (depth s c) 0) filtered_2)
      in fgt condition_2_pct (2 / 10))"

text \<open>
  \<^verbatim>\<open>zone_v\<close>, lines 33 to 56 and 83. The array is changed in place and returned; the
  model returns the new array. Plotting and logging do not touch the array.
\<close>

definition zone_v :: "veg_grid \<Rightarrow> dataset \<Rightarrow> date \<Rightarrow> veg_grid" where
  "zone_v veg_type water_depth dt =
     (let type_mask = (\<lambda>c. veg_type c = 15);
          transition_mask = (\<lambda>c. condition_1 water_depth dt c \<and> condition_2 water_depth dt c);
          combined_mask = (\<lambda>c. type_mask c \<and> transition_mask c)
      in (\<lambda>c. if combined_mask c then 16 else veg_type c))"

text \<open>
  What a call of a placeholder rule yields: it could raise, return an array, or return
  some other Python object.
\<close>

datatype py_exception_class = NotImplementedError

datatype py_result = Raised py_exception_class | Returned_array veg_grid
  | Returned_class py_exception_class

text \<open>Lines 86 to 93: both placeholders \<^verbatim>\<open>return NotImplementedError\<close>.\<close>

definition zone_iv :: "'a \<Rightarrow> 'b \<Rightarrow> 'c \<Rightarrow> py_result" where
  "zone_iv arg1 arg2 arg3 = Returned_class NotImplementedError"

definition zone_iii :: "'a \<Rightarrow> 'b \<Rightarrow> 'c \<Rightarrow> py_result" where
  "zone_iii arg1 arg2 arg3 = Returned_class NotImplementedError"

section \<open>File names and dates (utils.py)\<close>

subsection \<open>Strings of Python\<close>

text \<open>\<^verbatim>\<open>s.split(sep)\<close> with a one-character separator: every occurrence cuts.\<close>

fun str_split :: "char \<Rightarrow> string \<Rightarrow> string list" where
  "str_split sep [] = [[]]"
| "str_split sep (c # cs) =
     (if c = sep then [] # str_split sep cs
      else (case str_split sep cs of [] \<Rightarrow> [[c]] | t # ts \<Rightarrow> (c # t) # ts))"

text \<open>\<^verbatim>\<open>sep.join(xs)\<close>.\<close>

fun str_join :: "string \<Rightarrow> string list \<Rightarrow> string" where
  "str_join sep [] = []"
| "str_join sep [x] = x"
| "str_join sep (x # y # ys) = x @ sep @ str_join sep (y # ys)"

fun starts_with :: "string \<Rightarrow> string \<Rightarrow> bool" where
  "starts_with [] s = True"
| "starts_with (a # as) [] = False"
| "starts_with (a # as) (c # cs) = (a = c \<and> starts_with as cs)"

text \<open>\<^verbatim>\<open>sub in s\<close>.\<close>

fun str_contains :: "string \<Rightarrow> string \<Rightarrow> bool" where
  "str_contains sub [] = (sub = [])"
| "str_contains sub (c # cs) = (starts_with sub (c # cs) \<or> str_contains sub cs)"

text \<open>\<^verbatim>\<open>s.rfind(c)\<close>: the index of the last occurrence; \<open>None\<close> stands for -1.\<close>

fun rfind :: "char \<Rightarrow> string \<Rightarrow> nat option" where
  "rfind c [] = None"
| "rfind c (x # xs) =
     (case rfind c xs of Some i \<Rightarrow> Some (Suc i)
      | None \<Rightarrow> if x = c then Some 0 else None)"

definition digit_char :: "nat \<Rightarrow> char" where
  "digit_char n = ''0123456789'' ! n"

definition is_digit :: "char \<Rightarrow> bool" where
  "is_digit c = (c \<in> set ''0123456789'')"

definition digit_val :: "char \<Rightarrow> nat" where
  "digit_val c = of_char c - 48"

text \<open>\<^verbatim>\<open>str(n)\<close> for \<open>n \<ge> 0\<close>, and for any integer.\<close>

fun str_nat :: "nat \<Rightarrow> string" where
  "str_nat n = (if n < 10 then [digit_char n] else str_nat (n div 10) @ [digit_char (n mod 10)])"

declare str_nat.simps [simp del]

definition str_int :: "int \<Rightarrow> string" where
  "str_int i = (if i < 0 then CHR ''-'' # str_nat (nat (- i)) else str_nat (nat i))"

text \<open>The format specification \<^verbatim>\<open>:02d\<close> on \<open>n \<ge> 0\<close>: zeros up to width two.\<close>

definition fmt_02d :: "nat \<Rightarrow> string" where
  "fmt_02d n = (let s = str_nat n in replicate (2 - length s) CHR ''0'' @ s)"

text \<open>
  \<^verbatim>\<open>int(t)\<close> on a token the date pattern has accepted: digits, after blanks are
  stripped.
\<close>

definition py_int :: "string \<Rightarrow> nat" where
  "py_int t = foldl (\<lambda>a c. 10 * a + digit_val c) 0 (filter (\<lambda>c. c \<noteq> CHR '' '') t)"

subsection \<open>Paths\<close>

text \<open>
  A \<^verbatim>\<open>pathlib.Path\<close> is the list of its parts; paths are ordered as their lists of
  parts are, part by part and character by character. For an absolute path the first part
  is the root \<^verbatim>\<open>/\<close>.
\<close>

type_synonym path = "string list"

definition name :: "path \<Rightarrow> string" where
  "name p = (if p = [] then [] else last p)"

text \<open>\<^verbatim>\<open>path.stem\<close>: the name without its last suffix.\<close>

definition stem :: "path \<Rightarrow> string" where
  "stem p =
     (let nm = name p in
      case rfind CHR ''.'' nm of
        None \<Rightarrow> nm
      | Some i \<Rightarrow> if 0 < i \<and> i < length nm - 1 then take i nm else nm)"

text \<open>\<^verbatim>\<open>str(path)\<close>.\<close>

definition str_path :: "path \<Rightarrow> string" where
  "str_path p =
     (case p of
        [] \<Rightarrow> ''.''
      | r # rest \<Rightarrow> if r = ''/'' then r @ str_join ''/'' rest else str_join ''/'' p)"

text \<open>\<^verbatim>\<open>os.path.join(a, b)\<close> on POSIX.\<close>

definition os_path_join :: "string \<Rightarrow> string \<Rightarrow> string" where
  "os_path_join a b =
     (if starts_with ''/'' b then b
      else if a = [] \<or> last a = CHR ''/'' then a @ b
      else a @ ''/'' @ b)"

subsection \<open>extract\_date\<close>

text \<open>
  \<^verbatim>\<open>datetime.strptime(s, "%Y_%m_%d")\<close>. The pattern of the format is four digits, an
  underscore, a month token (\<^verbatim>\<open>1[0-2]|0[1-9]|[1-9]\<close>), an underscore and a day token
  (\<^verbatim>\<open>3[0-1]|[1-2]\d|0[1-9]|[1-9]| [1-9]\<close>), and the whole string must be consumed.
  No token contains an underscore, so the string matches exactly when its three
  underscore-separated fields match the three tokens. A string that does not match, and
  a matched date that does not exist, are a \<^verbatim>\<open>ValueError\<close>: \<open>None\<close> here.
\<close>

definition match_Y :: "string \<Rightarrow> bool" where
  "match_Y t = (length t = 4 \<and> list_all is_digit t)"

fun match_m :: "string \<Rightarrow> bool" where
  "match_m [a] = (a \<in> set ''123456789'')"
| "match_m [a, b] =
     ((a = CHR ''1'' \<and> b \<in> set ''012'') \<or> (a = CHR ''0'' \<and> b \<in> set ''123456789''))"
| "match_m t = False"

fun match_d :: "string \<Rightarrow> bool" where
  "match_d [a] = (a \<in> set ''123456789'')"
| "match_d [a, b] =
     ((a = CHR ''3'' \<and> b \<in> set ''01'') \<or> (a \<in> set ''12'' \<and> is_digit b) \<or>
      (a = CHR ''0'' \<and> b \<in> set ''123456789'') \<or>
      (a = CHR '' '' \<and> b \<in> set ''123456789''))"
| "match_d t = False"

definition strptime_Ymd :: "string \<Rightarrow> date option" where
  "strptime_Ymd s =
     (case str_split CHR ''_'' s of
        [y, m, d] \<Rightarrow>
          if match_Y y \<and> match_m m \<and> match_d d
          then datetime (int (py_int y)) (py_int m) (py_int d) else None
      | _ \<Rightarrow> None)"

text \<open>
  Lines 100 to 106. Taking the last three tokens of a shorter list gives the whole list
  and never fails; the \<^verbatim>\<open>ValueError\<close> of \<^verbatim>\<open>strptime\<close> is caught and becomes the
  result \<open>None\<close>.
\<close>

definition extract_date :: "path \<Rightarrow> date option" where
  "extract_date p =
     (let toks = str_split CHR ''_'' (stem p);
          date_str = str_join ''_'' (drop (length toks - 3) toks)
      in strptime_Ymd date_str)"

text \<open>
  The format of the specification: a date written as \<^verbatim>\<open>YYYY_MM_DD\<close>, the year on four
  digits and the month and day on two, with leading zeros.
\<close>

definition fmt_04d :: "nat \<Rightarrow> string" where
  "fmt_04d n = (let s = str_nat n in replicate (4 - length s) CHR ''0'' @ s)"

definition format_YYYY_MM_DD :: "date \<Rightarrow> string" where
  "format_YYYY_MM_DD d =
     fmt_04d (year d) @ ''_'' @ fmt_02d (month d) @ ''_'' @ fmt_02d (day d)"

subsection \<open>generate\_combined\_sequence\<close>

text \<open>The exceptions that leave \<^verbatim>\<open>generate_combined_sequence\<close>.\<close>

datatype error =
    FileNotFoundError
  | KeyError int
  | ValueError_year_out_of_range
  | TypeError_compare_None
  | ValueError_missing_data int
  | AttributeError_None

text \<open>A row of \<^verbatim>\<open>quintile_sequence\<close>: the columns \<^verbatim>\<open>Water Year\<close> and \<^verbatim>\<open>Quintile\<close>.\<close>

record row =
  water_year :: int
  quintile :: int

text \<open>One \<^verbatim>\<open>shutil.copy(p, dest_file)\<close>: the source path and the destination.\<close>

type_synonym copy = "path \<times> string"

text \<open>
  The run is a pair: the exception that ended it (\<open>None\<close> when it returned) and the
  copies made until then, in order.
\<close>

type_synonym run = "error option \<times> copy list"

text \<open>
  Lines 38 to 40. The directory is outside the program: \<open>tif_files\<close> is what
  \<^verbatim>\<open>path.rglob("*.tif")\<close> lists under \<^verbatim>\<open>source_folder\<close>.
\<close>

definition source_files :: "path list \<Rightarrow> path list" where
  "source_files tif_files = filter (\<lambda>file. \<not> str_contains ''SLR'' (str_path file)) tif_files"

text \<open>
  Lines 52 to 54, the list comprehension. \<^verbatim>\<open>start <= extract_date(path) <= end\<close> on
  the result \<^verbatim>\<open>None\<close> raises \<^verbatim>\<open>TypeError\<close>.
\<close>

fun source_year_paths :: "date \<Rightarrow> date \<Rightarrow> path list \<Rightarrow> error + path list" where
  "source_year_paths start_date end_date [] = Inr []"
| "source_year_paths start_date end_date (p # ps) =
     (case extract_date p of
        None \<Rightarrow> Inl TypeError_compare_None
      | Some d \<Rightarrow>
          (case source_year_paths start_date end_date ps of
             Inl e \<Rightarrow> Inl e
           | Inr r \<Rightarrow> Inr (if date_le start_date d \<and> date_le d end_date then p # r else r)))"

text \<open>Lines 67 to 70.\<close>

definition replacement_year :: "int \<Rightarrow> date \<Rightarrow> string" where
  "replacement_year analog_year file_date =
     (if month file_date \<in> set [10, 11, 12] then str_int (analog_year - 1)
      else str_int analog_year)"

text \<open>Line 73.\<close>

definition new_file_name :: "int \<Rightarrow> date \<Rightarrow> string" where
  "new_file_name analog_year file_date =
     ''WSE_MEAN_'' @ replacement_year analog_year file_date @ ''_'' @
     fmt_02d (month file_date) @ ''_'' @ fmt_02d (day file_date) @ ''.tif''"

text \<open>
  Lines 62 to 77, the loop over the files of one source year. \<open>copied\<close> holds the
  copies made before. Every path of the loop has passed the comparison of line 53, so its
  date is not \<^verbatim>\<open>None\<close>; the branch for \<^verbatim>\<open>None\<close> is the \<^verbatim>\<open>AttributeError\<close> that
  \<^verbatim>\<open>file_date.month\<close> would raise. Failures of the file system are outside the program.
\<close>

fun copy_year :: "int \<Rightarrow> string \<Rightarrow> path list \<Rightarrow> copy list \<Rightarrow> run" where
  "copy_year analog_year output_folder [] copied = (None, copied)"
| "copy_year analog_year output_folder (p # ps) copied =
     (case extract_date p of
        None \<Rightarrow> (Some AttributeError_None, copied)
      | Some file_date \<Rightarrow>
          copy_year analog_year output_folder ps
            (copied @ [(p, os_path_join output_folder (new_file_name analog_year file_date))]))"

text \<open>Lines 47 to 77, the body of the loop over the rows.\<close>

definition sequence_entry ::
  "(int \<rightharpoonup> int) \<Rightarrow> path list \<Rightarrow> string \<Rightarrow> row \<Rightarrow> copy list \<Rightarrow> run" where
  "sequence_entry quintile_to_year_map files output_folder i copied =
     (let analog_year = water_year i in
      case quintile_to_year_map (quintile i) of
        None \<Rightarrow> (Some (KeyError (quintile i)), copied)
      | Some source_year \<Rightarrow>
          (case datetime (source_year - 1) 10 1 of
             None \<Rightarrow> (Some ValueError_year_out_of_range, copied)
           | Some start_date \<Rightarrow>
               (case datetime source_year 9 30 of
                  None \<Rightarrow> (Some ValueError_year_out_of_range, copied)
                | Some end_date \<Rightarrow>
                    (case source_year_paths start_date end_date files of
                       Inl e \<Rightarrow> (Some e, copied)
                     | Inr unsorted \<Rightarrow>
                         (let paths = sort unsorted in
                          if length paths < 12
                          then (Some (ValueError_missing_data source_year), copied)
                          else copy_year analog_year output_folder paths copied)))))"

text \<open>Line 46: the rows in order; an exception ends the loop.\<close>

fun sequence_loop ::
  "(int \<rightharpoonup> int) \<Rightarrow> path list \<Rightarrow> string \<Rightarrow> row list \<Rightarrow> copy list \<Rightarrow> run" where
  "sequence_loop quintile_to_year_map files output_folder [] copied = (None, copied)"
| "sequence_loop quintile_to_year_map files output_folder (i # rest) copied =
     (case sequence_entry quintile_to_year_map files output_folder i copied of
        (Some e, copied') \<Rightarrow> (Some e, copied')
      | (None, copied') \<Rightarrow> sequence_loop quintile_to_year_map files output_folder rest copied')"

text \<open>
  Lines 35 to 81. The file system is outside the program: \<^verbatim>\<open>os.makedirs\<close> and
  \<^verbatim>\<open>shutil.copy\<close> are taken to succeed. Printing makes no copy.
\<close>

definition generate_combined_sequence ::
  "row list \<Rightarrow> (int \<rightharpoonup> int) \<Rightarrow> path list \<Rightarrow> string \<Rightarrow> run" where
  "generate_combined_sequence quintile_sequence quintile_to_year_map tif_files output_folder =
     (if source_files tif_files = [] then (Some FileNotFoundError, [])
      else sequence_loop quintile_to_year_map (source_files tif_files) output_folder
             quintile_sequence [])"

text \<open>
  The file's date falls inside the water year \<open>source_year\<close>: from 1 October of the year
  before to 30 September.
\<close>

definition in_water_year :: "int \<Rightarrow> path \<Rightarrow> bool" where
  "in_water_year source_year p =
     (case extract_date p of
        None \<Rightarrow> False
      | Some d \<Rightarrow>
          date_le \<lparr>year = nat (source_year - 1), month = 10, day = 1\<rparr> d \<and>
          date_le d \<lparr>year = nat source_year, month = 9, day = 30\<rparr>)"

subsection \<open>create\_dataset\_from\_template\<close>











section \<open>Example data\<close>

definition ex_date :: date where
  "ex_date = \<lparr>year = 2020, month = 6, day = 15\<rparr>"

text \<open>
  Four cells: three of code 15 and one of code 7. Cell (0, 0) is dry until April and wet
  afterwards, cell (0, 1) is always wet, cell (1, 0) is always dry, and cell (1, 1) has
  the hydrology of cell (0, 0).
\<close>

definition ex_veg :: veg_grid where
  "ex_veg c = (if c = (1, 1) then 7 else 15)"

definition ex_depth :: "nat \<Rightarrow> cell \<Rightarrow> fval" where
  "ex_depth m c =
     (if c = (0, 1) then Finite 1
      else if c = (1, 0) then Finite (- 1)
      else if m \<le> 4 then Finite (- 1 / 2) else Finite (3 / 10))"

definition ex_water_depth :: dataset where
  "ex_water_depth =
     map (\<lambda>m. \<lparr>time = \<lparr>year = 2020, month = m, day = 1\<rparr>, depth = ex_depth m\<rparr>)
       [1, 2, 3, 4, 5, 6, 7, 8, 9, 10, 11, 12]"

text \<open>Ten daily steps in April 2020, wet on the first \<open>k\<close> days.\<close>

definition ex_daily :: "nat \<Rightarrow> dataset" where
  "ex_daily k =
     map (\<lambda>d. \<lparr>time = \<lparr>year = 2020, month = 4, day = d\<rparr>,
                depth = (\<lambda>c. if d \<le> k then Finite 1 else Finite 0)\<rparr>)
       [1, 2, 3, 4, 5, 6, 7, 8, 9, 10]"

text \<open>The twelve monthly rasters of water year 2006, and a sequence of one row.\<close>

definition ex_catalog :: "path list" where
  "ex_catalog = map (\<lambda>n. [''hec'', n])
     [''WSE_MEAN_2005_10_15.tif'', ''WSE_MEAN_2005_11_15.tif'', ''WSE_MEAN_2005_12_15.tif'',
      ''WSE_MEAN_2006_01_15.tif'', ''WSE_MEAN_2006_02_15.tif'', ''WSE_MEAN_2006_03_10.tif'',
      ''WSE_MEAN_2006_04_15.tif'', ''WSE_MEAN_2006_05_15.tif'', ''WSE_MEAN_2006_06_15.tif'',
      ''WSE_MEAN_2006_07_15.tif'', ''WSE_MEAN_2006_08_15.tif'', ''WSE_MEAN_2006_09_30.tif'']"

definition ex_rows :: "row list" where
  "ex_rows = [\<lparr>water_year = 2030, quintile = 1\<rparr>]"

definition ex_map :: "int \<rightharpoonup> int" where
  "ex_map = [1 \<mapsto> 2006]"

text \<open>A catalog with no file of water year 2006, and one with a sea-level-rise file only.\<close>

definition ex_other_catalog :: "path list" where
  "ex_other_catalog = [[''hec'', ''WSE_MEAN_2010_05_15.tif'']]"

definition ex_slr_catalog :: "path list" where
  "ex_slr_catalog = [[''hec'', ''SLR_2ft'', ''WSE_MEAN_2005_10_15.tif'']]"

text \<open>Eleven files of water year 2006 and a file whose name has no date.\<close>

definition ex_unparsed_catalog :: "path list" where
  "ex_unparsed_catalog = [''hec'', ''readme.tif''] # tl ex_catalog"






section \<open>The Zone V rule\<close>

lemma condition_1_iff:
  "condition_1 wd d c =
     (\<exists>s\<in>set wd. year (time s) = year d \<and> month (time s) \<in> {3, 4, 5} \<and> fle (depth s c) 0)"
proof -
  have m: "\<And>m::nat. (3 \<le> m \<and> m \<le> 5) = (m \<in> {3, 4, 5})" by auto
  show ?thesis
    unfolding condition_1_def sel_time_def any_time_def Let_def m
    by (auto simp: list_ex_iff)
qed

lemma condition_2_iff:
  "condition_2 wd d c =
     (let gs = filter (\<lambda>s. year (time s) = year d \<and> month (time s) \<in> {4..9}) wd
      in gs \<noteq> [] \<and>
         2 / 10 < real (length (filter (\<lambda>s. fgt (depth s c) 0) gs)) / real (length gs))"
  unfolding condition_2_def sel_time_def mean_time_def Let_def
  by (simp add: comp_def)

text \<open>
  C1. One call of \<^verbatim>\<open>zone_v\<close> gives a cell the code 16 when its code is 15, its depth is
  \<open>\<le> 0\<close> at some step of March to May of the reference year, and the share of the April to
  September steps with depth \<open>> 0\<close> is above 0.2; every other cell keeps its code.
\<close>

theorem zone_v_transition:
  "zone_v veg wd d c =
     (if veg c = 15
         \<and> (\<exists>s\<in>set wd. year (time s) = year d \<and> month (time s) \<in> {3, 4, 5}
                \<and> fle (depth s c) 0)
         \<and> (let gs = filter (\<lambda>s. year (time s) = year d \<and> month (time s) \<in> {4..9}) wd
            in gs \<noteq> [] \<and>
               2 / 10 < real (length (filter (\<lambda>s. fgt (depth s c) 0) gs)) / real (length gs))
      then 16 else veg c)"
  unfolding zone_v_def Let_def condition_1_iff condition_2_iff by simp

theorem zone_v_transition_witness:
  "zone_v ex_veg ex_water_depth ex_date (0, 0) = 16
   \<and> zone_v ex_veg ex_water_depth ex_date (0, 1) = 15
   \<and> zone_v ex_veg ex_water_depth ex_date (1, 0) = 15
   \<and> zone_v ex_veg ex_water_depth ex_date (1, 1) = 7"
  using zone_v_transition [of ex_veg ex_water_depth ex_date "(0, 0)"]
    zone_v_transition [of ex_veg ex_water_depth ex_date "(0, 1)"]
    zone_v_transition [of ex_veg ex_water_depth ex_date "(1, 0)"]
    zone_v_transition [of ex_veg ex_water_depth ex_date "(1, 1)"]
  by (simp add: ex_veg_def ex_water_depth_def ex_date_def ex_depth_def)

text \<open>
  C6. The growing-season condition of \<^verbatim>\<open>zone_v\<close> holds at a cell exactly when the share of
  the window's steps with depth \<open>> 0\<close> is above 0.2: it holds with 3 wet steps of 10 and
  fails with 1 of 10.
\<close>

theorem frequency_condition:
  "(let gs = filter (\<lambda>s. year (time s) = year d \<and> month (time s) \<in> {4..9}) wd;
        k = length (filter (\<lambda>s. fgt (depth s c) 0) gs)
    in (condition_2 wd d c \<longleftrightarrow> gs \<noteq> [] \<and> 2 / 10 < real k / real (length gs))
     \<and> (length gs = 10 \<and> k = 3 \<longrightarrow> condition_2 wd d c)
     \<and> (length gs = 10 \<and> k = 1 \<longrightarrow> \<not> condition_2 wd d c))"
  unfolding condition_2_iff Let_def by auto

theorem frequency_condition_witness:
  "condition_2 (ex_daily 3) ex_date (0, 0) \<and> \<not> condition_2 (ex_daily 1) ex_date (0, 0)"
  using frequency_condition [of ex_date "ex_daily 3" "(0, 0)"]
    frequency_condition [of ex_date "ex_daily 1" "(0, 0)"]
  by (simp add: ex_daily_def ex_date_def Let_def)

text \<open>
  C9. A call of \<^verbatim>\<open>zone_iv\<close> or \<^verbatim>\<open>zone_iii\<close> does not raise and does not give an array:
  its value is the class \<^verbatim>\<open>NotImplementedError\<close> itself.
\<close>

theorem placeholders_return_class:
  "zone_iv a1 a2 a3 = Returned_class NotImplementedError
   \<and> zone_iii b1 b2 b3 = Returned_class NotImplementedError
   \<and> (\<forall>e. zone_iv a1 a2 a3 \<noteq> Raised e) \<and> (\<forall>g. zone_iv a1 a2 a3 \<noteq> Returned_array g)
   \<and> (\<forall>e. zone_iii b1 b2 b3 \<noteq> Raised e) \<and> (\<forall>g. zone_iii b1 b2 b3 \<noteq> Returned_array g)"
  by (simp add: zone_iv_def zone_iii_def)

text \<open>
  C10. \<^verbatim>\<open>zone_v\<close> is idempotent: a second call with the same dataset and date leaves
  the grid of the first call unchanged.
\<close>

theorem zone_v_idempotent:
  "zone_v (zone_v veg wd d) wd d = zone_v veg wd d"
  by (rule ext) (simp add: zone_v_def Let_def)

theorem zone_v_idempotent_witness:
  "zone_v (zone_v ex_veg ex_water_depth ex_date) ex_water_depth ex_date (0, 0) = 16"
  using zone_v_idempotent [of ex_veg ex_water_depth ex_date]
  by (simp add: zone_v_def condition_1_iff condition_2_iff
      ex_veg_def ex_water_depth_def ex_date_def ex_depth_def)

section \<open>The analog sequence generator\<close>

lemma source_year_paths_parsed:
  "\<forall>p\<in>set files. extract_date p \<noteq> None \<Longrightarrow>
   source_year_paths s e files =
     Inr (filter (\<lambda>p. case extract_date p of None \<Rightarrow> False
                       | Some d \<Rightarrow> date_le s d \<and> date_le d e) files)"
  by (induction files) (auto split: option.splits)

lemma source_year_paths_unparsed:
  "p \<in> set files \<Longrightarrow> extract_date p = None \<Longrightarrow>
   source_year_paths s e files = Inl TypeError_compare_None"
proof (induction files)
  case Nil
  then show ?case by simp
next
  case (Cons q qs)
  show ?case
  proof (cases "extract_date q")
    case None
    then show ?thesis by simp
  next
    case (Some d)
    with Cons have "p \<in> set qs" by auto
    with Cons Some show ?thesis by simp
  qed
qed

lemma datetime_oct: "2 \<le> sy \<Longrightarrow> sy \<le> 9999 \<Longrightarrow>
  datetime (sy - 1) 10 (Suc 0) = Some \<lparr>year = nat (sy - 1), month = 10, day = 1\<rparr>"
  by (auto simp: datetime_def valid_date_def days_in_month_def)

lemma datetime_sep: "2 \<le> sy \<Longrightarrow> sy \<le> 9999 \<Longrightarrow>
  datetime sy 9 30 = Some \<lparr>year = nat sy, month = 9, day = 30\<rparr>"
  by (auto simp: datetime_def valid_date_def days_in_month_def)

lemma sequence_entry_parsed:
  assumes "\<forall>p\<in>set files. extract_date p \<noteq> None"
    and "qm (quintile i) = Some sy" and "2 \<le> sy" and "sy \<le> 9999"
  shows "sequence_entry qm files out i copied =
    (let paths = sort (filter (in_water_year sy) files) in
     if length paths < 12 then (Some (ValueError_missing_data sy), copied)
     else copy_year (water_year i) out paths copied)"
proof -
  have "source_year_paths \<lparr>year = nat (sy - 1), month = 10, day = 1\<rparr>
          \<lparr>year = nat sy, month = 9, day = 30\<rparr> files = Inr (filter (in_water_year sy) files)"
    unfolding in_water_year_def [abs_def]
    by (rule source_year_paths_parsed [OF assms(1)])
  then show ?thesis
    by (simp add: sequence_entry_def assms datetime_oct datetime_sep Let_def)
qed

lemma sequence_entry_missing:
  assumes "\<forall>p\<in>set files. extract_date p \<noteq> None"
    and "qm (quintile i) = Some sy" and "2 \<le> sy" and "sy \<le> 9999"
    and "length (filter (in_water_year sy) files) < 12"
  shows "sequence_entry qm files out i copied = (Some (ValueError_missing_data sy), copied)"
  using assms(5) sequence_entry_parsed [of files qm i sy out copied, OF assms(1-4)]
  by (simp add: Let_def)

lemma sequence_entry_unparsed:
  assumes "p \<in> set files" and "extract_date p = None"
    and "qm (quintile i) = Some sy" and "2 \<le> sy" and "sy \<le> 9999"
  shows "sequence_entry qm files out i copied = (Some TypeError_compare_None, copied)"
  by (simp add: sequence_entry_def assms datetime_oct datetime_sep
      source_year_paths_unparsed [OF assms(1,2)])

lemma sequence_loop_append:
  "sequence_loop qm files out (pre @ rest) copied =
     (case sequence_loop qm files out pre copied of
        (Some e, c) \<Rightarrow> (Some e, c)
      | (None, c) \<Rightarrow> sequence_loop qm files out rest c)"
  by (induction pre arbitrary: copied) (auto split: prod.splits option.splits)

lemma copy_year_parsed:
  "\<forall>p\<in>set ps. extract_date p \<noteq> None \<Longrightarrow>
   copy_year ay out ps copied =
     (None, copied @ map (\<lambda>p. (p, os_path_join out (new_file_name ay (the (extract_date p))))) ps)"
  by (induction ps arbitrary: copied) auto

lemma copy_year_appends:
  "\<exists>new. snd (copy_year ay out ps copied) = copied @ new \<and>
     (\<forall>(p, dest)\<in>set new. \<exists>fd. extract_date p = Some fd \<and>
         dest = os_path_join out (new_file_name ay fd))"
proof (induction ps arbitrary: copied)
  case Nil
  show ?case by simp
next
  case (Cons q qs)
  show ?case
  proof (cases "extract_date q")
    case None
    then show ?thesis by simp
  next
    case (Some fd)
    from Cons.IH [of "copied @ [(q, os_path_join out (new_file_name ay fd))]"]
    obtain new where n: "snd (copy_year ay out qs
          (copied @ [(q, os_path_join out (new_file_name ay fd))])) =
        (copied @ [(q, os_path_join out (new_file_name ay fd))]) @ new"
      and f: "\<forall>(p, dest)\<in>set new. \<exists>fd. extract_date p = Some fd \<and>
         dest = os_path_join out (new_file_name ay fd)"
      by blast
    have "snd (copy_year ay out (q # qs) copied) =
        copied @ ((q, os_path_join out (new_file_name ay fd)) # new)"
      using n Some by simp
    moreover have "\<forall>(p, dest)\<in>set ((q, os_path_join out (new_file_name ay fd)) # new).
        \<exists>fd. extract_date p = Some fd \<and> dest = os_path_join out (new_file_name ay fd)"
      using f Some by simp
    ultimately show ?thesis by blast
  qed
qed

lemma sequence_entry_appends:
  "\<exists>new. snd (sequence_entry qm files out i copied) = copied @ new \<and>
     (\<forall>(p, dest)\<in>set new. \<exists>fd. extract_date p = Some fd \<and>
         dest = os_path_join out (new_file_name (water_year i) fd))"
proof -
  have e: "\<exists>new. copied = copied @ new \<and>
     (\<forall>(p, dest)\<in>set new. \<exists>fd. extract_date p = Some fd \<and>
         dest = os_path_join out (new_file_name (water_year i) fd))"
    by (rule exI [of _ "[]"]) simp
  show ?thesis
    using e copy_year_appends [of "water_year i" out _ copied]
    by (simp add: sequence_entry_def Let_def split: option.splits sum.splits)
qed

lemma generate_snoc:
  "snd (generate_combined_sequence (pre @ [i]) qm tifs out) =
     (if source_files tifs = [] \<or> fst (generate_combined_sequence pre qm tifs out) \<noteq> None
      then snd (generate_combined_sequence pre qm tifs out)
      else snd (sequence_entry qm (source_files tifs) out i
                  (snd (generate_combined_sequence pre qm tifs out))))"
  by (auto simp: generate_combined_sequence_def sequence_loop_append
      split: prod.splits option.splits)

lemma generate_snoc_run:
  "source_files tifs \<noteq> [] \<Longrightarrow> fst (generate_combined_sequence pre qm tifs out) = None \<Longrightarrow>
   generate_combined_sequence (pre @ [i]) qm tifs out =
     sequence_entry qm (source_files tifs) out i
       (snd (generate_combined_sequence pre qm tifs out))"
  by (auto simp: generate_combined_sequence_def sequence_loop_append
      split: prod.splits option.splits)

lemma new_file_name_eq:
  "new_file_name ty fd =
     ''WSE_MEAN_'' @ str_int (if month fd \<in> {10, 11, 12} then ty - 1 else ty) @
     ''_'' @ fmt_02d (month fd) @ ''_'' @ fmt_02d (day fd) @ ''.tif''"
  by (simp add: new_file_name_def replacement_year_def)

lemmas extract_date_eval = extract_date_def stem_def name_def strptime_Ymd_def match_Y_def
  is_digit_def py_int_def digit_val_def datetime_def valid_date_def days_in_month_def
  is_leap_def

lemma ex_dates:
  "extract_date [''hec'', ''WSE_MEAN_2005_10_15.tif''] = Some \<lparr>year = 2005, month = 10, day = 15\<rparr>"
  "extract_date [''hec'', ''WSE_MEAN_2005_11_15.tif''] = Some \<lparr>year = 2005, month = 11, day = 15\<rparr>"
  "extract_date [''hec'', ''WSE_MEAN_2005_12_15.tif''] = Some \<lparr>year = 2005, month = 12, day = 15\<rparr>"
  "extract_date [''hec'', ''WSE_MEAN_2006_01_15.tif''] = Some \<lparr>year = 2006, month = 1, day = 15\<rparr>"
  "extract_date [''hec'', ''WSE_MEAN_2006_02_15.tif''] = Some \<lparr>year = 2006, month = 2, day = 15\<rparr>"
  "extract_date [''hec'', ''WSE_MEAN_2006_03_10.tif''] = Some \<lparr>year = 2006, month = 3, day = 10\<rparr>"
  "extract_date [''hec'', ''WSE_MEAN_2006_04_15.tif''] = Some \<lparr>year = 2006, month = 4, day = 15\<rparr>"
  "extract_date [''hec'', ''WSE_MEAN_2006_05_15.tif''] = Some \<lparr>year = 2006, month = 5, day = 15\<rparr>"
  "extract_date [''hec'', ''WSE_MEAN_2006_06_15.tif''] = Some \<lparr>year = 2006, month = 6, day = 15\<rparr>"
  "extract_date [''hec'', ''WSE_MEAN_2006_07_15.tif''] = Some \<lparr>year = 2006, month = 7, day = 15\<rparr>"
  "extract_date [''hec'', ''WSE_MEAN_2006_08_15.tif''] = Some \<lparr>year = 2006, month = 8, day = 15\<rparr>"
  "extract_date [''hec'', ''WSE_MEAN_2006_09_30.tif''] = Some \<lparr>year = 2006, month = 9, day = 30\<rparr>"
  by (simp_all add: extract_date_eval)

lemma ex_source_files: "source_files ex_catalog = ex_catalog"
  by (simp add: source_files_def ex_catalog_def str_path_def)

lemma ex_sorted: "sort ex_catalog = ex_catalog"
  by (simp add: ex_catalog_def less_eq_char_def less_char_def)

lemma ex_length: "length ex_catalog = 12"
  by (simp add: ex_catalog_def)

lemma ex_qualifying: "filter (in_water_year 2006) ex_catalog = ex_catalog"
  by (simp add: ex_catalog_def in_water_year_def ex_dates date_le_def)

lemma strptime_valid:
  "strptime_Ymd s = Some fd \<Longrightarrow> valid_date (year fd) (month fd) (day fd)"
  by (auto simp: strptime_Ymd_def datetime_def split: list.splits if_splits)

lemma extract_date_valid:
  "extract_date p = Some fd \<Longrightarrow> valid_date (year fd) (month fd) (day fd)"
  by (auto simp: extract_date_def Let_def dest: strptime_valid)

text \<open>
  C2. The copies that \<^verbatim>\<open>generate_combined_sequence\<close> makes for the row \<open>i\<close>, after those
  of the rows before it, are of files with a date, each to the name
  \<^verbatim>\<open>WSE_MEAN_<year>_<month:02d>_<day:02d>.tif\<close> in the output folder, with the month and
  day of the file; the year is the water year of \<open>i\<close> less one for October, November and
  December, and the water year of \<open>i\<close> for January to September. When the row is reached
  and its source year is complete, the copies are exactly those of the files of the source
  water year, in the order of their paths.
\<close>

theorem renaming_rule:
  "(\<exists>new. snd (generate_combined_sequence (pre @ [i]) qm tifs out) =
            snd (generate_combined_sequence pre qm tifs out) @ new \<and>
      (\<forall>(p, dest)\<in>set new. \<exists>fd. extract_date p = Some fd \<and> month fd \<in> {1..12} \<and>
          dest = os_path_join out
            (''WSE_MEAN_'' @
             str_int (if month fd \<in> {10, 11, 12} then water_year i - 1 else water_year i) @
             ''_'' @ fmt_02d (month fd) @ ''_'' @ fmt_02d (day fd) @ ''.tif'')))
   \<and> (fst (generate_combined_sequence pre qm tifs out) = None
       \<and> source_files tifs \<noteq> []
       \<and> (\<forall>p\<in>set (source_files tifs). extract_date p \<noteq> None)
       \<and> qm (quintile i) = Some sy \<and> 2 \<le> sy \<and> sy \<le> 9999
       \<and> 12 \<le> length (filter (in_water_year sy) (source_files tifs)) \<longrightarrow>
      generate_combined_sequence (pre @ [i]) qm tifs out =
        (None, snd (generate_combined_sequence pre qm tifs out) @
           map (\<lambda>p. (p, os_path_join out
                  (''WSE_MEAN_'' @
                   str_int (if month (the (extract_date p)) \<in> {10, 11, 12}
                            then water_year i - 1 else water_year i) @
                   ''_'' @ fmt_02d (month (the (extract_date p))) @
                   ''_'' @ fmt_02d (day (the (extract_date p))) @ ''.tif'')))
             (sort (filter (in_water_year sy) (source_files tifs)))))"
proof (intro conjI impI)
  let ?before = "snd (generate_combined_sequence pre qm tifs out)"
  from sequence_entry_appends [of qm "source_files tifs" out i ?before]
  obtain new where n: "snd (sequence_entry qm (source_files tifs) out i ?before) = ?before @ new"
    and f: "\<forall>(p, dest)\<in>set new. \<exists>fd. extract_date p = Some fd \<and>
         dest = os_path_join out (new_file_name (water_year i) fd)"
    by blast
  have g: "\<forall>(p, dest)\<in>set new. \<exists>fd. extract_date p = Some fd \<and> month fd \<in> {1..12} \<and>
          dest = os_path_join out
            (''WSE_MEAN_'' @
             str_int (if month fd \<in> {10, 11, 12} then water_year i - 1 else water_year i) @
             ''_'' @ fmt_02d (month fd) @ ''_'' @ fmt_02d (day fd) @ ''.tif'')"
  proof (clarify)
    fix p dest assume "(p, dest) \<in> set new"
    with f obtain fd where fd: "extract_date p = Some fd"
      and d: "dest = os_path_join out (new_file_name (water_year i) fd)" by blast
    from extract_date_valid [OF fd] have "month fd \<in> {1..12}"
      by (simp add: valid_date_def)
    with fd d show "\<exists>fd. extract_date p = Some fd \<and> month fd \<in> {1..12} \<and>
          dest = os_path_join out
            (''WSE_MEAN_'' @
             str_int (if month fd \<in> {10, 11, 12} then water_year i - 1 else water_year i) @
             ''_'' @ fmt_02d (month fd) @ ''_'' @ fmt_02d (day fd) @ ''.tif'')"
      by (simp only: new_file_name_eq) blast
  qed
  show "\<exists>new. snd (generate_combined_sequence (pre @ [i]) qm tifs out) = ?before @ new \<and>
      (\<forall>(p, dest)\<in>set new. \<exists>fd. extract_date p = Some fd \<and> month fd \<in> {1..12} \<and>
          dest = os_path_join out
            (''WSE_MEAN_'' @
             str_int (if month fd \<in> {10, 11, 12} then water_year i - 1 else water_year i) @
             ''_'' @ fmt_02d (month fd) @ ''_'' @ fmt_02d (day fd) @ ''.tif''))"
  proof (cases "source_files tifs = [] \<or> fst (generate_combined_sequence pre qm tifs out) \<noteq> None")
    case True
    then have "snd (generate_combined_sequence (pre @ [i]) qm tifs out) = ?before @ []"
      by (simp only: generate_snoc if_True append_Nil2)
    then show ?thesis by (intro exI [of _ "[]"]) simp
  next
    case False
    then have "snd (generate_combined_sequence (pre @ [i]) qm tifs out) = ?before @ new"
      by (simp only: generate_snoc if_False n)
    with g show ?thesis by blast
  qed
next
  let ?before = "snd (generate_combined_sequence pre qm tifs out)"
  let ?files = "source_files tifs"
  assume a: "fst (generate_combined_sequence pre qm tifs out) = None
       \<and> source_files tifs \<noteq> []
       \<and> (\<forall>p\<in>set (source_files tifs). extract_date p \<noteq> None)
       \<and> qm (quintile i) = Some sy \<and> 2 \<le> sy \<and> sy \<le> 9999
       \<and> 12 \<le> length (filter (in_water_year sy) (source_files tifs))"
  then have 1: "\<forall>p\<in>set ?files. extract_date p \<noteq> None" and 2: "qm (quintile i) = Some sy"
    and 3: "2 \<le> sy" and 4: "sy \<le> 9999"
    and 5: "12 \<le> length (filter (in_water_year sy) ?files)"
    and 6: "?files \<noteq> []" and 7: "fst (generate_combined_sequence pre qm tifs out) = None"
    by simp_all
  have p: "\<forall>p\<in>set (sort (filter (in_water_year sy) ?files)). extract_date p \<noteq> None"
    using 1 by simp
  have "sequence_entry qm ?files out i ?before =
      copy_year (water_year i) out (sort (filter (in_water_year sy) ?files)) ?before"
    using 5 sequence_entry_parsed [where qm = qm and i = i, OF 1 2 3 4, of out ?before]
    by (simp add: Let_def)
  also have "\<dots> = (None, ?before @
      map (\<lambda>p. (p, os_path_join out (new_file_name (water_year i) (the (extract_date p)))))
        (sort (filter (in_water_year sy) ?files)))"
    by (rule copy_year_parsed [OF p])
  finally show "generate_combined_sequence (pre @ [i]) qm tifs out =
        (None, ?before @
           map (\<lambda>p. (p, os_path_join out
                  (''WSE_MEAN_'' @
                   str_int (if month (the (extract_date p)) \<in> {10, 11, 12}
                            then water_year i - 1 else water_year i) @
                   ''_'' @ fmt_02d (month (the (extract_date p))) @
                   ''_'' @ fmt_02d (day (the (extract_date p))) @ ''.tif'')))
             (sort (filter (in_water_year sy) ?files)))"
    by (simp only: generate_snoc_run [OF 6 7] new_file_name_eq)
qed

theorem renaming_rule_witness:
  "generate_combined_sequence ([] @ [\<lparr>water_year = 2030, quintile = 1\<rparr>]) ex_map ex_catalog ''out'' =
     (None, map (\<lambda>(n, m). ([''hec'', n], m))
       [(''WSE_MEAN_2005_10_15.tif'', ''out/WSE_MEAN_2029_10_15.tif''),
        (''WSE_MEAN_2005_11_15.tif'', ''out/WSE_MEAN_2029_11_15.tif''),
        (''WSE_MEAN_2005_12_15.tif'', ''out/WSE_MEAN_2029_12_15.tif''),
        (''WSE_MEAN_2006_01_15.tif'', ''out/WSE_MEAN_2030_01_15.tif''),
        (''WSE_MEAN_2006_02_15.tif'', ''out/WSE_MEAN_2030_02_15.tif''),
        (''WSE_MEAN_2006_03_10.tif'', ''out/WSE_MEAN_2030_03_10.tif''),
        (''WSE_MEAN_2006_04_15.tif'', ''out/WSE_MEAN_2030_04_15.tif''),
        (''WSE_MEAN_2006_05_15.tif'', ''out/WSE_MEAN_2030_05_15.tif''),
        (''WSE_MEAN_2006_06_15.tif'', ''out/WSE_MEAN_2030_06_15.tif''),
        (''WSE_MEAN_2006_07_15.tif'', ''out/WSE_MEAN_2030_07_15.tif''),
        (''WSE_MEAN_2006_08_15.tif'', ''out/WSE_MEAN_2030_08_15.tif''),
        (''WSE_MEAN_2006_09_30.tif'', ''out/WSE_MEAN_2030_09_30.tif'')])"
proof -
  have n: "source_files ex_catalog \<noteq> []"
    by (simp add: ex_source_files) (simp add: ex_catalog_def)
  have 1: "fst (generate_combined_sequence [] ex_map ex_catalog ''out'') = None"
    and s: "snd (generate_combined_sequence [] ex_map ex_catalog ''out'') = []"
    using n by (simp_all add: generate_combined_sequence_def)
  have 2: "\<forall>p\<in>set (source_files ex_catalog). extract_date p \<noteq> None"
    by (simp add: ex_source_files) (simp add: ex_catalog_def ex_dates)
  have 3: "ex_map (quintile \<lparr>water_year = 2030, quintile = 1\<rparr>) = Some 2006"
    by (simp add: ex_map_def)
  have 4: "12 \<le> length (filter (in_water_year 2006) (source_files ex_catalog))"
    by (simp add: ex_source_files ex_qualifying ex_length)
  have 5: "sort (filter (in_water_year 2006) (source_files ex_catalog)) = ex_catalog"
    by (simp add: ex_source_files ex_qualifying ex_sorted)
  have h: "fst (generate_combined_sequence [] ex_map ex_catalog ''out'') = None
       \<and> source_files ex_catalog \<noteq> []
       \<and> (\<forall>p\<in>set (source_files ex_catalog). extract_date p \<noteq> None)
       \<and> ex_map (quintile \<lparr>water_year = 2030, quintile = 1\<rparr>) = Some 2006
       \<and> 2 \<le> (2006::int) \<and> (2006::int) \<le> 9999
       \<and> 12 \<le> length (filter (in_water_year 2006) (source_files ex_catalog))"
    using 1 n 2 3 4 by simp
  have "generate_combined_sequence ([] @ [\<lparr>water_year = 2030, quintile = 1\<rparr>]) ex_map
      ex_catalog ''out'' =
    (None, snd (generate_combined_sequence [] ex_map ex_catalog ''out'') @
       map (\<lambda>p. (p, os_path_join ''out''
              (''WSE_MEAN_'' @
               str_int (if month (the (extract_date p)) \<in> {10, 11, 12}
                        then water_year \<lparr>water_year = 2030, quintile = 1\<rparr> - 1
                        else water_year \<lparr>water_year = 2030, quintile = 1\<rparr>) @
               ''_'' @ fmt_02d (month (the (extract_date p))) @
               ''_'' @ fmt_02d (day (the (extract_date p))) @ ''.tif'')))
         (sort (filter (in_water_year 2006) (source_files ex_catalog))))"
    by (rule renaming_rule [where pre = "[]" and i = "\<lparr>water_year = 2030, quintile = 1\<rparr>"
      and qm = ex_map and tifs = ex_catalog and out = "''out''" and sy = 2006,
      THEN conjunct2, THEN mp, OF h])
  then show ?thesis
    unfolding 5 s
    by (simp add: ex_catalog_def ex_dates str_int_def str_nat.simps fmt_02d_def digit_char_def
        os_path_join_def)
qed

lemma empty_catalog:
  "source_files tifs = [] \<Longrightarrow>
   generate_combined_sequence rows qm tifs out = (Some FileNotFoundError, [])"
  by (simp add: generate_combined_sequence_def)

lemma missing_data_at:
  assumes "source_files tifs \<noteq> []"
    and "\<forall>p\<in>set (source_files tifs). extract_date p \<noteq> None"
    and "fst (generate_combined_sequence pre qm tifs out) = None"
    and "qm (quintile i) = Some sy" and "2 \<le> sy" and "sy \<le> 9999"
    and "length (filter (in_water_year sy) (source_files tifs)) < 12"
  shows "generate_combined_sequence (pre @ i # post) qm tifs out =
     (Some (ValueError_missing_data sy), snd (generate_combined_sequence pre qm tifs out))"
proof -
  obtain c where pre: "sequence_loop qm (source_files tifs) out pre [] = (None, c)"
    using assms(1,3) by (cases "sequence_loop qm (source_files tifs) out pre []")
      (simp add: generate_combined_sequence_def)
  have "sequence_entry qm (source_files tifs) out i c = (Some (ValueError_missing_data sy), c)"
    by (rule sequence_entry_missing [where qm = qm and i = i, OF assms(2) assms(4-7)])
  then show ?thesis
    using assms(1) pre by (simp add: generate_combined_sequence_def sequence_loop_append)
qed

lemma ex_tl_parsed: "\<forall>p\<in>set (tl ex_catalog). extract_date p \<noteq> None"
  by (simp add: ex_catalog_def ex_dates)

lemma ex_tl_source_files: "source_files (tl ex_catalog) = tl ex_catalog"
  by (simp add: source_files_def ex_catalog_def str_path_def)

lemma ex_tl_qualifying:
  "length (filter (in_water_year 2006) (source_files (tl ex_catalog))) = 11"
  unfolding ex_tl_source_files
  by (simp add: ex_catalog_def in_water_year_def ex_dates date_le_def)

lemma ex_unparsed_qualifying:
  "length (filter (in_water_year 2006) (source_files ex_unparsed_catalog)) = 11"
proof -
  have r: "extract_date [''hec'', ''readme.tif''] = None"
    by (simp add: extract_date_eval)
  have "source_files ex_unparsed_catalog = ex_unparsed_catalog"
    by (simp add: source_files_def ex_unparsed_catalog_def ex_catalog_def str_path_def)
  then show ?thesis
    by (simp add: ex_unparsed_catalog_def ex_catalog_def in_water_year_def ex_dates r date_le_def)
qed

text \<open>
  C5. The catalog holds exactly eleven files of water year 2006 and one file whose name
  has no date. The claim asks for the missing-data \<^verbatim>\<open>ValueError\<close>; the run ends with the
  \<^verbatim>\<open>TypeError\<close> of line 53 instead, before the count of line 59 is reached.
\<close>

theorem incomplete_year_type_error:
  "extract_date [''hec'', ''readme.tif''] = None
   \<and> length (filter (in_water_year 2006) (source_files ex_unparsed_catalog)) = 11
   \<and> generate_combined_sequence ex_rows ex_map ex_unparsed_catalog ''out''
       = (Some TypeError_compare_None, [])
   \<and> fst (generate_combined_sequence ex_rows ex_map ex_unparsed_catalog ''out'')
       \<noteq> Some (ValueError_missing_data 2006)"
proof -
  have r: "extract_date [''hec'', ''readme.tif''] = None"
    by (simp add: extract_date_eval)
  have m: "[''hec'', ''readme.tif''] \<in> set (source_files ex_unparsed_catalog)"
    by (simp add: source_files_def ex_unparsed_catalog_def str_path_def)
  then have n: "source_files ex_unparsed_catalog \<noteq> []" by auto
  have q: "ex_map (quintile \<lparr>water_year = 2030, quintile = 1\<rparr>) = Some 2006"
    by (simp add: ex_map_def)
  have "sequence_entry ex_map (source_files ex_unparsed_catalog) ''out''
      \<lparr>water_year = 2030, quintile = 1\<rparr> [] = (Some TypeError_compare_None, [])"
    by (rule sequence_entry_unparsed [where qm = ex_map, OF m r q]) simp_all
  with n have "generate_combined_sequence ex_rows ex_map ex_unparsed_catalog ''out''
       = (Some TypeError_compare_None, [])"
    by (simp add: generate_combined_sequence_def ex_rows_def)
  with r ex_unparsed_qualifying show ?thesis by simp
qed

lemma ex_other_date:
  "extract_date [''hec'', ''WSE_MEAN_2010_05_15.tif''] = Some \<lparr>year = 2010, month = 5, day = 15\<rparr>"
  by (simp add: extract_date_eval)

lemma ex_other_source_files: "source_files ex_other_catalog = ex_other_catalog"
  by (simp add: source_files_def ex_other_catalog_def str_path_def)

lemma ex_other_none: "filter (in_water_year 2006) (source_files ex_other_catalog) = []"
  by (simp add: ex_other_source_files)
    (simp add: ex_other_catalog_def in_water_year_def ex_other_date date_le_def)

text \<open>
  C3, as amended. With an empty catalog (no file is left once the sea-level-rise files are
  taken out) the run ends with \<^verbatim>\<open>FileNotFoundError\<close>. With a catalog that is not empty
  and whose names all have a date, a row that is reached, with its quintile mapped to a
  source year of 2 to 9999, ends the run with the missing-data \<^verbatim>\<open>ValueError\<close> when no file
  falls inside the source water year, as it does whenever fewer than 12 files fall inside
  it: a year without files has the error of an incomplete year and no error of its own. The
  copies made are those of the rows before; the row is not skipped.
\<close>

theorem catalog_errors:
  "(source_files tifs = [] \<longrightarrow>
      generate_combined_sequence rows qm tifs out = (Some FileNotFoundError, []))
   \<and> (source_files tifs \<noteq> [] \<and> (\<forall>p\<in>set (source_files tifs). extract_date p \<noteq> None)
       \<and> fst (generate_combined_sequence pre qm tifs out) = None
       \<and> qm (quintile i) = Some sy \<and> 2 \<le> sy \<and> sy \<le> 9999
       \<and> filter (in_water_year sy) (source_files tifs) = [] \<longrightarrow>
      generate_combined_sequence (pre @ i # post) qm tifs out =
        (Some (ValueError_missing_data sy), snd (generate_combined_sequence pre qm tifs out)))
   \<and> (source_files tifs \<noteq> [] \<and> (\<forall>p\<in>set (source_files tifs). extract_date p \<noteq> None)
       \<and> fst (generate_combined_sequence pre qm tifs out) = None
       \<and> qm (quintile i) = Some sy \<and> 2 \<le> sy \<and> sy \<le> 9999
       \<and> length (filter (in_water_year sy) (source_files tifs)) < 12 \<longrightarrow>
      generate_combined_sequence (pre @ i # post) qm tifs out =
        (Some (ValueError_missing_data sy), snd (generate_combined_sequence pre qm tifs out)))"
proof (intro conjI impI)
  assume "source_files tifs = []"
  then show "generate_combined_sequence rows qm tifs out = (Some FileNotFoundError, [])"
    by (rule empty_catalog)
next
  assume a: "source_files tifs \<noteq> [] \<and> (\<forall>p\<in>set (source_files tifs). extract_date p \<noteq> None)
       \<and> fst (generate_combined_sequence pre qm tifs out) = None
       \<and> qm (quintile i) = Some sy \<and> 2 \<le> sy \<and> sy \<le> 9999
       \<and> filter (in_water_year sy) (source_files tifs) = []"
  then have h: "source_files tifs \<noteq> []" "\<forall>p\<in>set (source_files tifs). extract_date p \<noteq> None"
    "fst (generate_combined_sequence pre qm tifs out) = None" "qm (quintile i) = Some sy"
    "2 \<le> sy" "sy \<le> 9999" "length (filter (in_water_year sy) (source_files tifs)) < 12"
    by simp_all
  show "generate_combined_sequence (pre @ i # post) qm tifs out =
        (Some (ValueError_missing_data sy), snd (generate_combined_sequence pre qm tifs out))"
    by (rule missing_data_at [where qm = qm and i = i, OF h])
next
  assume a: "source_files tifs \<noteq> [] \<and> (\<forall>p\<in>set (source_files tifs). extract_date p \<noteq> None)
       \<and> fst (generate_combined_sequence pre qm tifs out) = None
       \<and> qm (quintile i) = Some sy \<and> 2 \<le> sy \<and> sy \<le> 9999
       \<and> length (filter (in_water_year sy) (source_files tifs)) < 12"
  then have h: "source_files tifs \<noteq> []" "\<forall>p\<in>set (source_files tifs). extract_date p \<noteq> None"
    "fst (generate_combined_sequence pre qm tifs out) = None" "qm (quintile i) = Some sy"
    "2 \<le> sy" "sy \<le> 9999" "length (filter (in_water_year sy) (source_files tifs)) < 12"
    by simp_all
  show "generate_combined_sequence (pre @ i # post) qm tifs out =
        (Some (ValueError_missing_data sy), snd (generate_combined_sequence pre qm tifs out))"
    by (rule missing_data_at [where qm = qm and i = i, OF h])
qed

theorem catalog_errors_counterexample:
  "source_files ex_other_catalog \<noteq> []
   \<and> filter (in_water_year 2006) (source_files ex_other_catalog) = []
   \<and> generate_combined_sequence ex_rows ex_map ex_other_catalog ''out''
       = (Some (ValueError_missing_data 2006), [])
   \<and> fst (generate_combined_sequence ex_rows ex_map ex_other_catalog ''out'')
       \<noteq> Some FileNotFoundError"
proof -
  have 1: "source_files ex_other_catalog \<noteq> []"
    by (simp add: ex_other_source_files) (simp add: ex_other_catalog_def)
  have 2: "\<forall>p\<in>set (source_files ex_other_catalog). extract_date p \<noteq> None"
    by (simp add: ex_other_source_files) (simp add: ex_other_catalog_def ex_other_date)
  have "sequence_entry ex_map (source_files ex_other_catalog) ''out''
      \<lparr>water_year = 2030, quintile = 1\<rparr> [] = (Some (ValueError_missing_data 2006), [])"
    by (rule sequence_entry_missing [OF 2]) (simp_all add: ex_map_def ex_other_none)
  with 1 have "generate_combined_sequence ex_rows ex_map ex_other_catalog ''out''
       = (Some (ValueError_missing_data 2006), [])"
    by (simp add: generate_combined_sequence_def ex_rows_def)
  with 1 ex_other_none show ?thesis by simp
qed

theorem catalog_errors_witness:
  "source_files ex_slr_catalog = []
   \<and> generate_combined_sequence ex_rows ex_map ex_slr_catalog ''out''
       = (Some FileNotFoundError, [])
   \<and> filter (in_water_year 2006) (source_files ex_other_catalog) = []
   \<and> generate_combined_sequence ([] @ \<lparr>water_year = 2030, quintile = 1\<rparr> # []) ex_map
       ex_other_catalog ''out'' = (Some (ValueError_missing_data 2006), [])
   \<and> length (filter (in_water_year 2006) (source_files (tl ex_catalog))) = 11
   \<and> generate_combined_sequence ([] @ \<lparr>water_year = 2030, quintile = 1\<rparr> # []) ex_map
       (tl ex_catalog) ''out'' = (Some (ValueError_missing_data 2006), [])"
proof -
  have 0: "source_files ex_slr_catalog = []"
    by (simp add: source_files_def ex_slr_catalog_def str_path_def)
  have 1: "source_files ex_other_catalog \<noteq> []"
    by (simp add: ex_other_source_files) (simp add: ex_other_catalog_def)
  have 2: "\<forall>p\<in>set (source_files ex_other_catalog). extract_date p \<noteq> None"
    by (simp add: ex_other_source_files) (simp add: ex_other_catalog_def ex_other_date)
  have 3: "fst (generate_combined_sequence [] ex_map ex_other_catalog ''out'') = None"
    and s3: "snd (generate_combined_sequence [] ex_map ex_other_catalog ''out'') = []"
    using 1 by (simp_all add: generate_combined_sequence_def)
  have 4: "ex_map (quintile \<lparr>water_year = 2030, quintile = 1\<rparr>) = Some 2006"
    by (simp add: ex_map_def)
  have 5: "source_files (tl ex_catalog) \<noteq> []"
    unfolding ex_tl_source_files by (simp add: ex_catalog_def)
  have 6: "\<forall>p\<in>set (source_files (tl ex_catalog)). extract_date p \<noteq> None"
    unfolding ex_tl_source_files by (rule ex_tl_parsed)
  have 7: "fst (generate_combined_sequence [] ex_map (tl ex_catalog) ''out'') = None"
    and s7: "snd (generate_combined_sequence [] ex_map (tl ex_catalog) ''out'') = []"
    using 5 by (simp_all add: generate_combined_sequence_def)
  have 8: "length (filter (in_water_year 2006) (source_files (tl ex_catalog))) < 12"
    by (simp add: ex_tl_qualifying)
  from catalog_errors [where tifs = ex_slr_catalog and rows = ex_rows and qm = ex_map
      and out = "''out''"] 0
  have a: "generate_combined_sequence ex_rows ex_map ex_slr_catalog ''out''
       = (Some FileNotFoundError, [])" by blast
  from catalog_errors [where tifs = ex_other_catalog and qm = ex_map and pre = "[]"
      and i = "\<lparr>water_year = 2030, quintile = 1\<rparr>" and sy = 2006 and post = "[]"
      and out = "''out''"] 1 2 3 4 ex_other_none
  have b: "generate_combined_sequence ([] @ \<lparr>water_year = 2030, quintile = 1\<rparr> # []) ex_map
       ex_other_catalog ''out'' = (Some (ValueError_missing_data 2006), [])"
    by (simp add: s3)
  from catalog_errors [where tifs = "tl ex_catalog" and qm = ex_map and pre = "[]"
      and i = "\<lparr>water_year = 2030, quintile = 1\<rparr>" and sy = 2006 and post = "[]"
      and out = "''out''"] 5 6 7 4 8
  have c: "generate_combined_sequence ([] @ \<lparr>water_year = 2030, quintile = 1\<rparr> # []) ex_map
       (tl ex_catalog) ''out'' = (Some (ValueError_missing_data 2006), [])"
    by (simp add: s7)
  from 0 a b c ex_other_none ex_tl_qualifying show ?thesis by simp
qed

text \<open>
  C4. A catalog file whose name has no date is not left out of the matching: the
  comparison of line 53 raises \<^verbatim>\<open>TypeError\<close> for the first row, before any copy.
\<close>

theorem unparsable_name_raises:
  assumes "p \<in> set (source_files tifs)" and "extract_date p = None"
    and "qm (quintile i) = Some sy" and "2 \<le> sy" and "sy \<le> 9999"
  shows "generate_combined_sequence (i # rest) qm tifs out = (Some TypeError_compare_None, [])"
proof -
  from assms(1) have "source_files tifs \<noteq> []" by auto
  then show ?thesis
    by (simp add: generate_combined_sequence_def
        sequence_entry_unparsed [where qm = qm and i = i, OF assms])
qed

theorem unparsable_name_raises_witness:
  "extract_date [''hec'', ''readme.tif''] = None
   \<and> generate_combined_sequence (\<lparr>water_year = 2030, quintile = 1\<rparr> # []) ex_map
       ([''hec'', ''readme.tif''] # ex_catalog) ''out'' = (Some TypeError_compare_None, [])"
proof -
  have 1: "[''hec'', ''readme.tif''] \<in> set (source_files ([''hec'', ''readme.tif''] # ex_catalog))"
    by (simp add: source_files_def str_path_def)
  have 2: "extract_date [''hec'', ''readme.tif''] = None"
    by (simp add: extract_date_eval)
  have 3: "ex_map (quintile \<lparr>water_year = 2030, quintile = 1\<rparr>) = Some 2006"
    by (simp add: ex_map_def)
  from unparsable_name_raises [where qm = ex_map
      and i = "\<lparr>water_year = 2030, quintile = 1\<rparr>" and rest = "[]" and out = "''out''",
      OF 1 2 3] 2
  show ?thesis by simp
qed

section \<open>The date extractor\<close>

lemma digit_cases: "k < 10 \<Longrightarrow> k \<in> {0, 1, 2, 3, 4, 5, 6, 7, 8, 9::nat}"
  by auto

lemma digit_char_props:
  assumes "k < 10"
  shows "is_digit (digit_char k)" and "digit_val (digit_char k) = k"
    and "digit_char k \<noteq> CHR ''_''" and "digit_char k \<noteq> CHR '' ''"
    and "digit_char k \<noteq> CHR ''.''"
  using digit_cases [OF assms]
  by (auto simp: digit_char_def is_digit_def digit_val_def)

lemma str_nat_1: "n < 10 \<Longrightarrow> str_nat n = [digit_char n]"
  by (subst str_nat.simps) simp


lemma str_nat_2: "10 \<le> n \<Longrightarrow> n < 100 \<Longrightarrow> str_nat n = [digit_char (n div 10), digit_char (n mod 10)]"
  by (subst str_nat.simps) (simp add: str_nat_1)

lemma str_nat_3: "100 \<le> n \<Longrightarrow> n < 1000 \<Longrightarrow>
  str_nat n = [digit_char (n div 100), digit_char (n div 10 mod 10), digit_char (n mod 10)]"
proof -
  assume a: "100 \<le> n" "n < 1000"
  then have "10 \<le> n div 10" "n div 10 < 100" by auto
  from str_nat_2 [OF this] a have "str_nat (n div 10) = [digit_char (n div 100), digit_char (n div 10 mod 10)]"
    by (simp add: div_mult2_eq [symmetric])
  with a show ?thesis by (subst str_nat.simps) simp
qed

lemma str_nat_4: "1000 \<le> n \<Longrightarrow> n < 10000 \<Longrightarrow>
  str_nat n = [digit_char (n div 1000), digit_char (n div 100 mod 10),
               digit_char (n div 10 mod 10), digit_char (n mod 10)]"
proof -
  assume a: "1000 \<le> n" "n < 10000"
  then have "100 \<le> n div 10" "n div 10 < 1000" by auto
  from str_nat_3 [OF this] a have "str_nat (n div 10) =
     [digit_char (n div 1000), digit_char (n div 100 mod 10), digit_char (n div 10 mod 10)]"
    by (simp add: div_mult2_eq [symmetric])
  with a show ?thesis by (subst str_nat.simps) simp
qed

lemma digit_char_0: "digit_char 0 = CHR ''0''"
  by (simp add: digit_char_def)

lemma fmt_02d_digits:
  "n < 100 \<Longrightarrow> fmt_02d n = [digit_char (n div 10), digit_char (n mod 10)]"
  by (cases "n < 10") (simp_all add: fmt_02d_def str_nat_1 str_nat_2 digit_char_0)

lemma fmt_04d_digits:
  assumes "n < 10000"
  shows "fmt_04d n = [digit_char (n div 1000), digit_char (n div 100 mod 10),
               digit_char (n div 10 mod 10), digit_char (n mod 10)]"
proof -
  have rep: "replicate 3 c = [c, c, c]" "replicate 2 c = [c, c]" for c :: char
    by (simp_all add: numeral_3_eq_3 numeral_2_eq_2)
  consider "n < 10" | "10 \<le> n" "n < 100" | "100 \<le> n" "n < 1000" | "1000 \<le> n"
    by linarith
  then show ?thesis
  proof cases
    case 1
    then show ?thesis by (simp add: fmt_04d_def str_nat_1 digit_char_0 rep)
  next
    case 2
    then show ?thesis by (simp add: fmt_04d_def str_nat_2 digit_char_0 rep)
  next
    case 3
    then show ?thesis by (simp add: fmt_04d_def str_nat_3 digit_char_0 rep)
  next
    case 4
    with assms show ?thesis by (simp add: fmt_04d_def str_nat_4)
  qed
qed

lemma digit_expansion:
  "10 * (10 * (10 * (n div 1000) + n div 100 mod 10) + n div 10 mod 10) + n mod 10 = (n::nat)"
proof -
  have a: "n div 100 = n div 10 div 10" and b: "n div 1000 = n div 10 div 10 div 10"
    by (simp_all add: div_mult2_eq [symmetric])
  have "10 * (n div 10 div 10 div 10) + n div 10 div 10 mod 10 = n div 10 div 10"
    by simp
  moreover have "10 * (n div 10 div 10) + n div 10 mod 10 = n div 10" by simp
  moreover have "10 * (n div 10) + n mod 10 = n" by simp
  ultimately show ?thesis unfolding a b by simp
qed

lemma year_token:
  assumes "n < 10000"
  shows "match_Y (fmt_04d n)" and "py_int (fmt_04d n) = n" and "CHR ''_'' \<notin> set (fmt_04d n)"
proof -
  have d: "n div 1000 < 10" "n div 100 mod 10 < 10" "n div 10 mod 10 < 10" "n mod 10 < 10"
    using assms by simp_all
  show "match_Y (fmt_04d n)"
    by (simp add: fmt_04d_digits [OF assms] match_Y_def digit_char_props(1) d)
  show "CHR ''_'' \<notin> set (fmt_04d n)"
    by (simp add: fmt_04d_digits [OF assms] digit_char_props(3) [symmetric] d)
  have "py_int (fmt_04d n) =
      10 * (10 * (10 * (n div 1000) + n div 100 mod 10) + n div 10 mod 10) + n mod 10"
    by (simp add: fmt_04d_digits [OF assms] py_int_def digit_char_props(2,4) d)
  then show "py_int (fmt_04d n) = n" by (simp only: digit_expansion)
qed

lemma two_digit_token:
  assumes "n < 100"
  shows "py_int (fmt_02d n) = n" and "CHR ''_'' \<notin> set (fmt_02d n)"
proof -
  have d: "n div 10 < 10" "n mod 10 < 10" using assms by simp_all
  show "CHR ''_'' \<notin> set (fmt_02d n)"
    by (simp add: fmt_02d_digits [OF assms] digit_char_props(3) [symmetric] d)
  have "py_int (fmt_02d n) = 10 * (n div 10) + n mod 10"
    by (simp add: fmt_02d_digits [OF assms] py_int_def digit_char_props(2,4) d)
  then show "py_int (fmt_02d n) = n" by simp
qed

lemma digit_char_nonzero:
  assumes "1 \<le> r" and "r < 10"
  shows "digit_char r \<in> set ''123456789''"
proof -
  from assms have "r = 1 \<or> r = 2 \<or> r = 3 \<or> r = 4 \<or> r = 5 \<or> r = 6 \<or> r = 7 \<or> r = 8 \<or> r = 9"
    by arith
  then show ?thesis by (elim disjE) (simp_all add: digit_char_def)
qed

lemma month_token:
  assumes "1 \<le> m" and "m \<le> 12"
  shows "match_m (fmt_02d m)"
proof -
  have f: "fmt_02d m = [digit_char (m div 10), digit_char (m mod 10)]"
    using assms by (simp add: fmt_02d_digits)
  show ?thesis
  proof (cases "m < 10")
    case True
    then have "m div 10 = 0" "m mod 10 = m" by simp_all
    with digit_char_nonzero [OF assms(1) True] show ?thesis
      by (simp add: f digit_char_0)
  next
    case False
    with assms have "m = 10 \<or> m = 11 \<or> m = 12" by arith
    then show ?thesis by (elim disjE) (simp_all add: fmt_02d_digits digit_char_def)
  qed
qed

lemma day_token:
  assumes "1 \<le> d" and "d \<le> 31"
  shows "match_d (fmt_02d d)"
proof -
  have f: "fmt_02d d = [digit_char (d div 10), digit_char (d mod 10)]"
    using assms by (simp add: fmt_02d_digits)
  have r: "d mod 10 < 10" by simp
  from assms have "d div 10 = 0 \<or> d div 10 = 1 \<or> d div 10 = 2 \<or> d div 10 = 3" by arith
  then show ?thesis
  proof (elim disjE)
    assume q: "d div 10 = 0"
    then have "d mod 10 = d" by (simp add: div_eq_0_iff)
    with assms have "1 \<le> d mod 10" by simp
    from digit_char_nonzero [OF this r] q show ?thesis
      by (simp add: f digit_char_0)
  next
    assume "d div 10 = 1"
    with digit_char_props(1) [OF r] show ?thesis
      by (simp add: f) (simp add: digit_char_def)
  next
    assume "d div 10 = 2"
    with digit_char_props(1) [OF r] show ?thesis
      by (simp add: f) (simp add: digit_char_def)
  next
    assume q: "d div 10 = 3"
    with assms have "d mod 10 = 0 \<or> d mod 10 = 1" by arith
    with q show ?thesis by (elim disjE) (simp_all add: f digit_char_def)
  qed
qed

lemma days_in_month_le: "days_in_month y m \<le> 31"
  by (simp add: days_in_month_def)

lemma str_split_no_sep: "sep \<notin> set t \<Longrightarrow> str_split sep t = [t]"
  by (induction t) auto

lemma str_split_nonempty: "str_split sep s \<noteq> []"
  by (induction s) (auto split: list.splits)

lemma str_split_append:
  "str_split sep (a @ sep # b) = str_split sep a @ str_split sep b"
proof (induction a)
  case Nil
  then show ?case by simp
next
  case (Cons c cs)
  then show ?case
    using str_split_nonempty [of sep cs]
    by (cases "str_split sep cs") auto
qed

lemma rfind_last:
  "c \<notin> set e \<Longrightarrow> rfind c (s @ c # e) = Some (length s)"
proof (induction s)
  case Nil
  have "rfind c e = None" using Nil by (induction e) auto
  then show ?case by simp
next
  case (Cons x xs)
  then show ?case by simp
qed

lemma rfind_none: "c \<notin> set s \<Longrightarrow> rfind c s = None"
  by (induction s) auto

lemma valid_date_bounds:
  assumes "valid_date y m d"
  shows "y < 10000" and "m < 100" and "d < 100" and "1 \<le> m" and "m \<le> 12"
    and "1 \<le> d" and "d \<le> 31" and "1 \<le> y"
proof -
  from assms have a: "1 \<le> y" "y \<le> 9999" "1 \<le> m" "m \<le> 12" "1 \<le> d" "d \<le> days_in_month y m"
    by (simp_all add: valid_date_def)
  from a(6) days_in_month_le [of y m] have "d \<le> 31" by (rule order_trans)
  with a show "y < 10000" "m < 100" "d < 100" "1 \<le> m" "m \<le> 12" "1 \<le> d" "d \<le> 31" "1 \<le> y"
    by simp_all
qed

lemma split_formatted:
  assumes "valid_date (year d) (month d) (day d)"
  shows "str_split CHR ''_'' (format_YYYY_MM_DD d) =
           [fmt_04d (year d), fmt_02d (month d), fmt_02d (day d)]"
proof -
  note b = valid_date_bounds [OF assms]
  have "format_YYYY_MM_DD d =
      fmt_04d (year d) @ CHR ''_'' # (fmt_02d (month d) @ CHR ''_'' # fmt_02d (day d))"
    by (simp add: format_YYYY_MM_DD_def)
  then show ?thesis
    by (simp only: str_split_append str_split_no_sep [OF year_token(3) [OF b(1)]]
        str_split_no_sep [OF two_digit_token(2) [OF b(2)]]
        str_split_no_sep [OF two_digit_token(2) [OF b(3)]] append.simps)
qed

lemma join_formatted:
  "str_join ''_'' [fmt_04d (year d), fmt_02d (month d), fmt_02d (day d)] = format_YYYY_MM_DD d"
  by (simp add: format_YYYY_MM_DD_def)

lemma strptime_formatted:
  assumes "valid_date (year d) (month d) (day d)"
  shows "strptime_Ymd (format_YYYY_MM_DD d) = Some (d::date)"
proof -
  note b = valid_date_bounds [OF assms]
  have "datetime (int (year d)) (month d) (day d) = Some d"
    using assms by (simp add: datetime_def)
  then show ?thesis
    by (simp add: strptime_Ymd_def split_formatted [OF assms] year_token(1,2) [OF b(1)]
        two_digit_token(1) [OF b(2)] two_digit_token(1) [OF b(3)]
        month_token [OF b(4,5)] day_token [OF b(6,7)])
qed

lemma last_three_tokens:
  assumes "valid_date (year d) (month d) (day d)"
    and "pre = [] \<or> last pre = CHR ''_''"
  shows "(let toks = str_split CHR ''_'' (pre @ format_YYYY_MM_DD d)
          in str_join ''_'' (drop (length toks - 3) toks)) = format_YYYY_MM_DD d"
proof (cases "pre = []")
  case True
  then show ?thesis
    by (simp add: split_formatted [OF assms(1)] join_formatted del: str_join.simps)
next
  case False
  with assms(2) have "pre = butlast pre @ [CHR ''_'']"
    by (metis append_butlast_last_id)
  then have "pre @ format_YYYY_MM_DD d = butlast pre @ CHR ''_'' # format_YYYY_MM_DD d"
    by (metis append_Cons append_Nil append_assoc)
  then have "str_split CHR ''_'' (pre @ format_YYYY_MM_DD d) =
      str_split CHR ''_'' (butlast pre) @
        [fmt_04d (year d), fmt_02d (month d), fmt_02d (day d)]"
    by (simp only: str_split_append split_formatted [OF assms(1)])
  then show ?thesis
    by (simp add: join_formatted del: str_join.simps)
qed

text \<open>
  C7, as amended. For every valid calendar date \<open>d\<close>, \<^verbatim>\<open>extract_date\<close> gives \<open>d\<close> back on
  a path whose stem (the file name without its last suffix, as \<^verbatim>\<open>path.stem\<close> cuts it) is
  \<open>d\<close> written as \<^verbatim>\<open>YYYY_MM_DD\<close>, alone or after a prefix that ends with an underscore.
\<close>

theorem extract_date_round_trip:
  assumes "valid_date (year d) (month d) (day d)"
    and "pre = [] \<or> last pre = CHR ''_''"
    and "stem p = pre @ format_YYYY_MM_DD d"
  shows "extract_date p = Some (d::date)"
  using last_three_tokens [OF assms(1,2)] strptime_formatted [OF assms(1)]
  by (simp add: extract_date_def Let_def assms(3))

theorem extract_date_round_trip_witness:
  "valid_date 2005 11 15
   \<and> format_YYYY_MM_DD \<lparr>year = 2005, month = 11, day = 15\<rparr> = ''2005_11_15''
   \<and> stem [''hec'', ''v1.2_2005_11_15.tif''] = ''v1.2_2005_11_15''
   \<and> extract_date [''hec'', ''v1.2_2005_11_15.tif'']
       = Some \<lparr>year = 2005, month = 11, day = 15\<rparr>"
proof -
  have v: "valid_date (year \<lparr>year = 2005, month = 11, day = 15\<rparr>)
      (month \<lparr>year = 2005, month = 11, day = 15\<rparr>) (day \<lparr>year = 2005, month = 11, day = 15\<rparr>)"
    by (simp add: valid_date_def days_in_month_def)
  have f: "format_YYYY_MM_DD \<lparr>year = 2005, month = 11, day = 15\<rparr> = ''2005_11_15''"
    by (simp add: format_YYYY_MM_DD_def fmt_04d_def fmt_02d_def str_nat.simps digit_char_def)
  have p: "''v1.2_'' = [] \<or> last ''v1.2_'' = CHR ''_''" by simp
  have s: "stem [''hec'', ''v1.2_2005_11_15.tif''] = ''v1.2_2005_11_15''"
    by (simp add: stem_def name_def)
  then have n: "stem [''hec'', ''v1.2_2005_11_15.tif''] =
      ''v1.2_'' @ format_YYYY_MM_DD \<lparr>year = 2005, month = 11, day = 15\<rparr>"
    by (simp add: f)
  from extract_date_round_trip [OF v p n] v f s
  show ?thesis by simp
qed

text \<open>
  The names \<^verbatim>\<open>v1.2_2005_11_15\<close> and \<^verbatim>\<open>WSE_MEAN_2005_11_15.tif.gz\<close> end with the date,
  the second before its extensions, but their stems are \<^verbatim>\<open>v1\<close> and
  \<^verbatim>\<open>WSE_MEAN_2005_11_15.tif\<close>: no date is found.
\<close>

theorem extract_date_round_trip_counterexample:
  "valid_date 2005 11 15
   \<and> format_YYYY_MM_DD \<lparr>year = 2005, month = 11, day = 15\<rparr> = ''2005_11_15''
   \<and> drop (length (str_split CHR ''_'' ''v1.2_2005_11_15'') - 3)
        (str_split CHR ''_'' ''v1.2_2005_11_15'') = [''2005'', ''11'', ''15'']
   \<and> stem [''v1.2_2005_11_15''] = ''v1''
   \<and> extract_date [''v1.2_2005_11_15''] = None
   \<and> stem [''hec'', ''WSE_MEAN_2005_11_15.tif.gz''] = ''WSE_MEAN_2005_11_15.tif''
   \<and> extract_date [''hec'', ''WSE_MEAN_2005_11_15.tif.gz''] = None"
proof -
  have v: "valid_date 2005 11 15"
    by (simp add: valid_date_def days_in_month_def)
  have f: "format_YYYY_MM_DD \<lparr>year = 2005, month = 11, day = 15\<rparr> = ''2005_11_15''"
    by (simp add: format_YYYY_MM_DD_def fmt_04d_def fmt_02d_def str_nat.simps digit_char_def)
  have t: "drop (length (str_split CHR ''_'' ''v1.2_2005_11_15'') - 3)
        (str_split CHR ''_'' ''v1.2_2005_11_15'') = [''2005'', ''11'', ''15'']"
    by simp
  have s1: "stem [''v1.2_2005_11_15''] = ''v1''"
    by (simp add: stem_def name_def)
  have e1: "extract_date [''v1.2_2005_11_15''] = None"
    by (simp add: extract_date_eval)
  have s2: "stem [''hec'', ''WSE_MEAN_2005_11_15.tif.gz''] = ''WSE_MEAN_2005_11_15.tif''"
    by (simp add: stem_def name_def)
  have e2: "extract_date [''hec'', ''WSE_MEAN_2005_11_15.tif.gz''] = None"
    by (simp add: extract_date_eval)
  from v f t s1 e1 s2 e2 show ?thesis by simp
qed

section \<open>The dataset template builder\<close>








end
